theory Spec2Isabelle
  imports Complex_Main "HOL-Library.List_Lexorder" "HOL-Library.Char_ord"
begin

section \<open>Data model\<close>

text \<open>
  The script \<^verbatim>\<open>retail_analysis_script.py\<close> reads three tables and runs one forward
  pass over them. A table is a list of rows, a row is a record of its columns.
  Identifiers are keys of an ordered type (naturals here), timestamps are integer
  nanoseconds since the epoch (the resolution of a pandas timestamp), amounts are exact
  rationals (the script computes them in binary floating point; the embedding is the
  exact-arithmetic reading of the same operations).
\<close>

type_synonym ident = nat
type_synonym timestamp = int

record customer =
  customer_id :: ident
  join_date :: timestamp
  customer_age :: int
  gender :: string
  location :: string

record product =
  product_id :: ident
  product_category :: string

record transaction =
  transaction_id :: ident
  txn_customer_id :: ident
  txn_product_id :: ident
  transaction_date :: timestamp
  quantity :: int
  total_amount :: rat

text \<open>A row of \<^verbatim>\<open>sales_data\<close>: the transaction with the customer and the product
  attached to it by the two joins.\<close>

record sale =
  txn :: transaction
  cust :: customer
  prod :: product

text \<open>\<^verbatim>\<open>pd.Timedelta(days=1)\<close> in nanoseconds, and \<^verbatim>\<open>Timedelta.days\<close>, which rounds
  towards minus infinity.\<close>

definition day :: int where
  "day = 86400000000000"

definition days :: "int \<Rightarrow> int" where
  "days delta = delta div day"

section \<open>Step 1: the joins\<close>

text \<open>
  \<^verbatim>\<open>left.merge(right, on=key)\<close> is an inner join: every left row is paired with every
  right row of the same key, in the order of the left rows; a left row with no partner
  yields nothing.
\<close>

definition merge_on :: "('a \<Rightarrow> 'k) \<Rightarrow> ('b \<Rightarrow> 'k) \<Rightarrow> 'a list \<Rightarrow> 'b list \<Rightarrow> ('a \<times> 'b) list" where
  "merge_on lkey rkey left right =
     concat (map (\<lambda>l. map (\<lambda>r. (l, r)) (filter (\<lambda>r. rkey r = lkey l) right)) left)"

definition sales_data :: "transaction list \<Rightarrow> customer list \<Rightarrow> product list \<Rightarrow> sale list" where
  "sales_data transactions_df customers_df products_df =
     map (\<lambda>((t, c), p). \<lparr>txn = t, cust = c, prod = p\<rparr>)
       (merge_on (\<lambda>(t, c). txn_product_id t) product_id
          (merge_on txn_customer_id customer_id transactions_df customers_df)
          products_df)"

definition customer_tenure_days :: "sale \<Rightarrow> int" where
  "customer_tenure_days s = days (transaction_date (txn s) - join_date (cust s))"

section \<open>Grouping and rounding\<close>

text \<open>
  \<^verbatim>\<open>df.groupby(key)\<close>: one group per distinct key, the groups in ascending key order,
  each group holding its rows in table order.
\<close>

definition groupby :: "('r \<Rightarrow> 'k::linorder) \<Rightarrow> 'r list \<Rightarrow> ('k \<times> 'r list) list" where
  "groupby key rows =
     map (\<lambda>k. (k, filter (\<lambda>r. key r = k) rows)) (sort (remdups (map key rows)))"

definition mean :: "rat list \<Rightarrow> rat" where
  "mean xs = sum_list xs / of_nat (length xs)"

text \<open>\<^verbatim>\<open>.round(d)\<close>: to the nearest multiple of \<open>10\<^sup>-\<^sup>d\<close>, a tie to the even one.\<close>

definition rint :: "rat \<Rightarrow> int" where
  "rint x =
     (let f = \<lfloor>x\<rfloor>; r = x - of_int f
      in if r < 1 / 2 then f else if 1 / 2 < r then f + 1 else if even f then f else f + 1)"

definition round_to :: "nat \<Rightarrow> rat \<Rightarrow> rat" where
  "round_to d x = of_int (rint (x * 10 ^ d)) / 10 ^ d"

section \<open>Step 2.3: product category analysis\<close>





section \<open>Step 3: RFM metrics\<close>

text \<open>\<^verbatim>\<open>Series.max()\<close> of a timestamp column; \<open>None\<close> is \<^verbatim>\<open>NaT\<close>, the maximum of
  an empty column.\<close>

definition series_max :: "timestamp list \<Rightarrow> timestamp option" where
  "series_max xs = (case xs of [] \<Rightarrow> None | x # rest \<Rightarrow> Some (fold max rest x))"

definition snapshot_date :: "sale list \<Rightarrow> timestamp option" where
  "snapshot_date sales =
     map_option (\<lambda>m. m + day) (series_max (map (transaction_date \<circ> txn) sales))"

record rfm_row =
  rfm_customer_id :: ident
  recency :: int
  frequency :: nat
  monetary :: rat

text \<open>Lines 94-100: the per-customer aggregation. With no sales row there is no group
  and no snapshot date.\<close>

definition rfm_agg :: "sale list \<Rightarrow> rfm_row list" where
  "rfm_agg sales =
     (case snapshot_date sales of
        None \<Rightarrow> []
      | Some snapshot \<Rightarrow>
          map (\<lambda>(k, g).
                 \<lparr>rfm_customer_id = k,
                  recency = days (snapshot - Max (set (map (transaction_date \<circ> txn) g))),
                  frequency = length g,
                  monetary = sum_list (map (total_amount \<circ> txn) g)\<rparr>)
            (groupby (txn_customer_id \<circ> txn) sales))"

record rfm_customer_row = rfm_row +
  rfm_customer_age :: int
  rfm_gender :: string
  rfm_location :: string

text \<open>Line 103: the customer columns are joined on.\<close>

definition rfm :: "sale list \<Rightarrow> customer list \<Rightarrow> rfm_customer_row list" where
  "rfm sales customers_df =
     map (\<lambda>(r, c).
            \<lparr>rfm_customer_id = rfm_customer_id r, recency = recency r,
             frequency = frequency r, monetary = monetary r,
             rfm_customer_age = customer_age c, rfm_gender = gender c,
             rfm_location = location c\<rparr>)
       (merge_on rfm_customer_id customer_id (rfm_agg sales) customers_df)"

section \<open>Step 3: quintile scores\<close>


text \<open>The \<open>k\<close>-th of the \<open>q\<close>-quantiles of the sorted values \<open>vs\<close>: position
  \<open>(n - 1) * k / q\<close>, interpolated linearly.\<close>

definition quantile :: "rat list \<Rightarrow> nat \<Rightarrow> nat \<Rightarrow> rat" where
  "quantile vs q k =
     (let h = (length vs - 1) * k; i = h div q; r = h mod q
      in if r = 0 then vs ! i
         else vs ! i + (of_nat r / of_nat q) * (vs ! (i + 1) - vs ! i))"

definition bin_edges :: "rat list \<Rightarrow> nat \<Rightarrow> rat list" where
  "bin_edges xs q = map (quantile (sort xs) q) [0..<q + 1]"





text \<open>\<^verbatim>\<open>Series.rank(method='first')\<close>: ascending ranks \<open>1..n\<close>, equal values ranked in
  the order they appear.\<close>

definition rank_first :: "nat list \<Rightarrow> nat list" where
  "rank_first xs =
     map (\<lambda>i. 1 + length (filter (\<lambda>y. y < xs ! i) xs)
               + length (filter (\<lambda>y. y = xs ! i) (take i xs)))
       [0..<length xs]"




record scored_row = rfm_customer_row +
  r_score :: "nat option"
  f_score :: "nat option"
  m_score :: "nat option"

definition add_scores :: "rfm_customer_row \<Rightarrow> nat option \<Rightarrow> nat option \<Rightarrow> nat option \<Rightarrow> scored_row" where
  "add_scores row r f m =
     \<lparr>rfm_customer_id = rfm_customer_id row, recency = recency row,
      frequency = frequency row, monetary = monetary row,
      rfm_customer_age = rfm_customer_age row, rfm_gender = rfm_gender row,
      rfm_location = rfm_location row,
      r_score = r, f_score = f, m_score = m\<rparr>"


section \<open>Step 4: rule-based segments\<close>

text \<open>A score is compared as a number; a missing score compares false both ways.\<close>

definition score_ge :: "nat option \<Rightarrow> nat \<Rightarrow> bool" where
  "score_ge s n = (case s of None \<Rightarrow> False | Some v \<Rightarrow> n \<le> v)"

definition score_le :: "nat option \<Rightarrow> nat \<Rightarrow> bool" where
  "score_le s n = (case s of None \<Rightarrow> False | Some v \<Rightarrow> v \<le> n)"

definition assign_segment_name :: "scored_row \<Rightarrow> string" where
  "assign_segment_name row =
     (if score_ge (r_score row) 4 \<and> score_ge (f_score row) 4 \<and> score_ge (m_score row) 4
        then ''Champions''
      else if score_ge (r_score row) 3 \<and> score_ge (f_score row) 3
        then ''Loyal Customers''
      else if score_ge (r_score row) 4 \<and> score_le (f_score row) 2
        then ''Potential Loyalists''
      else if score_le (r_score row) 2
        then ''At Risk''
      else ''Others'')"

record segment_row = scored_row +
  segment_name :: string

definition add_segment_name :: "scored_row \<Rightarrow> segment_row" where
  "add_segment_name row =
     \<lparr>rfm_customer_id = rfm_customer_id row, recency = recency row,
      frequency = frequency row, monetary = monetary row,
      rfm_customer_age = rfm_customer_age row, rfm_gender = rfm_gender row,
      rfm_location = rfm_location row,
      r_score = r_score row, f_score = f_score row, m_score = m_score row,
      segment_name = assign_segment_name row\<rparr>"

record profile_row =
  segment :: string
  avg_recency :: rat
  avg_frequency :: rat
  avg_monetary :: rat
  customer_count :: nat
  avg_age :: rat
  percentage :: rat

definition segment_profile :: "segment_row list \<Rightarrow> profile_row list" where
  "segment_profile rows =
     map (\<lambda>(k, g).
            \<lparr>segment = k,
             avg_recency = round_to 2 (mean (map (of_int \<circ> recency) g)),
             avg_frequency = round_to 2 (mean (map (of_nat \<circ> frequency) g)),
             avg_monetary = round_to 2 (mean (map monetary g)),
             customer_count = length g,
             avg_age = round_to 2 (mean (map (of_int \<circ> rfm_customer_age) g)),
             percentage = round_to 1 (of_nat (length g) / of_nat (length rows) * 100)\<rparr>)
       (groupby segment_name rows)"

section \<open>Example tables\<close>

text \<open>Three customers, two products and five transactions, two of which refer to a
  customer or a product that does not exist.\<close>

definition ex_customers :: "customer list" where
  "ex_customers =
     [\<lparr>customer_id = 1, join_date = 0, customer_age = 30, gender = ''F'', location = ''North''\<rparr>,
      \<lparr>customer_id = 2, join_date = 0, customer_age = 41, gender = ''M'', location = ''South''\<rparr>,
      \<lparr>customer_id = 3, join_date = 0, customer_age = 25, gender = ''F'', location = ''East''\<rparr>]"

definition ex_products :: "product list" where
  "ex_products =
     [\<lparr>product_id = 10, product_category = ''Books''\<rparr>,
      \<lparr>product_id = 20, product_category = ''Toys''\<rparr>]"

definition ex_transactions :: "transaction list" where
  "ex_transactions =
     [\<lparr>transaction_id = 1, txn_customer_id = 1, txn_product_id = 10, transaction_date = 0,
       quantity = 1, total_amount = 5\<rparr>,
      \<lparr>transaction_id = 2, txn_customer_id = 1, txn_product_id = 20, transaction_date = 2 * day,
       quantity = 2, total_amount = 7\<rparr>,
      \<lparr>transaction_id = 3, txn_customer_id = 2, txn_product_id = 10, transaction_date = day,
       quantity = 1, total_amount = 3\<rparr>,
      \<lparr>transaction_id = 4, txn_customer_id = 9, txn_product_id = 10, transaction_date = day,
       quantity = 1, total_amount = 4\<rparr>,
      \<lparr>transaction_id = 5, txn_customer_id = 3, txn_product_id = 99, transaction_date = day,
       quantity = 1, total_amount = 6\<rparr>]"


text \<open>A scored row with the given three scores.\<close>

definition ex_scored :: "nat \<Rightarrow> nat \<Rightarrow> nat \<Rightarrow> scored_row" where
  "ex_scored r f m =
     add_scores \<lparr>rfm_customer_id = 1, recency = 1, frequency = 2, monetary = 12,
                 rfm_customer_age = 30, rfm_gender = ''F'', rfm_location = ''North''\<rparr>
       (Some r) (Some f) (Some m)"





section \<open>The quintile of a rank\<close>


section \<open>Grouping partitions a table\<close>

lemma sum_list_indicator:
  "distinct ks \<Longrightarrow> (\<Sum>k\<leftarrow>ks. if a = k then (v::'a::comm_monoid_add) else 0) = (if a \<in> set ks then v else 0)"
  by (induction ks) auto

lemma sum_list_groups:
  fixes f :: "'r \<Rightarrow> 'a::comm_monoid_add"
  assumes "distinct ks"
  shows "key ` set rows \<subseteq> set ks \<Longrightarrow>
    (\<Sum>k\<leftarrow>ks. sum_list (map f (filter (\<lambda>r. key r = k) rows))) = sum_list (map f rows)"
proof (induction rows)
  case Nil
  then show ?case by simp
next
  case (Cons x rows)
  have "(\<Sum>k\<leftarrow>ks. sum_list (map f (filter (\<lambda>r. key r = k) (x # rows))))
      = (\<Sum>k\<leftarrow>ks. (if key x = k then f x else 0) + sum_list (map f (filter (\<lambda>r. key r = k) rows)))"
    by (rule arg_cong[where f=sum_list], rule map_cong) auto
  also have "\<dots> = (\<Sum>k\<leftarrow>ks. if key x = k then f x else 0)
                  + (\<Sum>k\<leftarrow>ks. sum_list (map f (filter (\<lambda>r. key r = k) rows)))"
    by (simp add: sum_list_addf)
  also have "\<dots> = f x + sum_list (map f rows)"
    using Cons assms by (simp add: sum_list_indicator)
  finally show ?case by simp
qed

lemma groupby_sum:
  fixes f :: "'r \<Rightarrow> 'a::comm_monoid_add"
  shows "(\<Sum>(k, g)\<leftarrow>groupby key rows. sum_list (map f g)) = sum_list (map f rows)"
proof -
  have "(\<Sum>(k, g)\<leftarrow>groupby key rows. sum_list (map f g))
      = (\<Sum>k\<leftarrow>sort (remdups (map key rows)). sum_list (map f (filter (\<lambda>r. key r = k) rows)))"
    by (simp add: groupby_def comp_def)
  also have "\<dots> = sum_list (map f rows)"
    by (rule sum_list_groups) auto
  finally show ?thesis .
qed

lemma groupby_length: "(\<Sum>(k, g)\<leftarrow>groupby key rows. length g) = length rows"
  using groupby_sum[of "\<lambda>_. 1::nat" key rows] by (simp add: sum_list_triv)

lemma groupby_nonempty: "(k, g) \<in> set (groupby key rows) \<Longrightarrow> g \<noteq> [] \<and> g = filter (\<lambda>r. key r = k) rows \<and> k \<in> key ` set rows"
  by (auto simp: groupby_def filter_empty_conv)

lemma sum_list_abs_diff:
  fixes f g :: "'a \<Rightarrow> rat"
  assumes "\<And>x. x \<in> set xs \<Longrightarrow> \<bar>f x - g x\<bar> \<le> e"
  shows "\<bar>sum_list (map f xs) - sum_list (map g xs)\<bar> \<le> of_nat (length xs) * e"
  using assms
proof (induction xs)
  case Nil
  then show ?case by simp
next
  case (Cons x xs)
  have "\<bar>f x - g x\<bar> \<le> e" using Cons.prems by simp
  moreover have "\<bar>sum_list (map f xs) - sum_list (map g xs)\<bar> \<le> of_nat (length xs) * e"
    using Cons by simp
  ultimately show ?case by (simp add: algebra_simps)
qed

lemma sum_list_scaled:
  fixes f :: "'a \<Rightarrow> rat"
  shows "sum_list (map (\<lambda>x. f x / c * d) xs) = sum_list (map f xs) / c * d"
  by (induction xs) (simp_all add: add_divide_distrib distrib_right)

section \<open>Properties of the joins\<close>

lemma merge_on_left:
  "map fst (merge_on lkey rkey left right)
     = concat (map (\<lambda>l. replicate (length (filter (\<lambda>r. rkey r = lkey l) right)) l) left)"
  by (induction left) (simp_all add: merge_on_def comp_def map_replicate_const)

lemma set_merge_on:
  "set (merge_on lkey rkey left right) = {(l, r). l \<in> set left \<and> r \<in> set right \<and> rkey r = lkey l}"
  by (auto simp: merge_on_def)

lemma distinct_filter_key_length:
  "distinct (map f xs) \<Longrightarrow> a \<in> f ` set xs \<Longrightarrow> length (filter (\<lambda>y. f y = a) xs) = 1"
proof (induction xs)
  case Nil
  then show ?case by simp
next
  case (Cons x xs)
  show ?case
  proof (cases "f x = a")
    case True
    with Cons.prems have "filter (\<lambda>y. f y = a) xs = []"
      by (auto simp: filter_empty_conv image_iff)
    with True show ?thesis by simp
  next
    case False
    with Cons show ?thesis by auto
  qed
qed

lemma distinct_filter_key_length':
  "distinct (map f xs) \<Longrightarrow> length (filter (\<lambda>y. f y = a) xs) = (if a \<in> f ` set xs then 1 else 0)"
  using distinct_filter_key_length[of f xs a] by (auto simp: filter_empty_conv)

lemma merge_on_left_unique:
  assumes "distinct (map rkey right)" "lkey ` set left \<subseteq> rkey ` set right"
  shows "map fst (merge_on lkey rkey left right) = left"
proof -
  have "\<And>l. l \<in> set left \<Longrightarrow> length (filter (\<lambda>r. rkey r = lkey l) right) = 1"
    using assms by (intro distinct_filter_key_length) auto
  then have "concat (map (\<lambda>l. replicate (length (filter (\<lambda>r. rkey r = lkey l) right)) l) left) = concat (map (\<lambda>l. [l]) left)"
    by (intro arg_cong[where f=concat] map_cong) auto
  then show ?thesis by (simp add: merge_on_left)
qed

lemma merge_on_left_distinct:
  assumes "distinct (map rkey right)"
  shows "map fst (merge_on lkey rkey left right) = filter (\<lambda>l. lkey l \<in> rkey ` set right) left"
  unfolding merge_on_left using assms
  by (induction left) (simp_all add: distinct_filter_key_length')

lemma set_sales_data:
  "set (map txn (sales_data ts cs ps))
   = {t \<in> set ts. txn_customer_id t \<in> customer_id ` set cs \<and> txn_product_id t \<in> product_id ` set ps}"
  by (force simp: sales_data_def set_merge_on image_iff)

lemma sales_data_keys:
  "s \<in> set (sales_data ts cs ps) \<Longrightarrow>
     txn s \<in> set ts \<and> cust s \<in> set cs \<and> prod s \<in> set ps \<and>
     customer_id (cust s) = txn_customer_id (txn s) \<and> product_id (prod s) = txn_product_id (txn s)"
  by (auto simp: sales_data_def set_merge_on)

lemma sales_data_unique:
  assumes "distinct (map customer_id cs)" "distinct (map product_id ps)"
  shows "map txn (sales_data ts cs ps)
   = filter (\<lambda>t. txn_customer_id t \<in> customer_id ` set cs \<and> txn_product_id t \<in> product_id ` set ps) ts"
proof -
  let ?j = "merge_on txn_customer_id customer_id ts cs"
  have "map txn (sales_data ts cs ps) = map fst (map fst (merge_on (\<lambda>(t, c). txn_product_id t) product_id ?j ps))"
    by (simp add: sales_data_def split_def comp_def)
  also have "\<dots> = map fst (filter (\<lambda>l. (\<lambda>(t, c). txn_product_id t) l \<in> product_id ` set ps) ?j)"
    using assms(2) by (simp add: merge_on_left_distinct)
  also have "\<dots> = filter (\<lambda>t. txn_product_id t \<in> product_id ` set ps) (map fst ?j)"
    by (simp add: filter_map comp_def split_def)
  also have "\<dots> = filter (\<lambda>t. txn_product_id t \<in> product_id ` set ps) (filter (\<lambda>t. txn_customer_id t \<in> customer_id ` set cs) ts)"
    using assms(1) by (simp add: merge_on_left_distinct)
  finally show ?thesis by (simp add: conj_commute)
qed

text \<open>
  Claim C8. The transactions that occur in the joined sales are exactly those whose
  customer identifier is in \<^verbatim>\<open>customers_df\<close> and whose product identifier is in
  \<^verbatim>\<open>products_df\<close>; the join is a total function and reports nothing about the others.
  With unique customer and product identifiers every matching transaction occurs once,
  in the order of \<^verbatim>\<open>transactions_df\<close>.
\<close>

theorem inner_join_drops_unmatched:
  "set (map txn (sales_data transactions_df customers_df products_df))
     = {t \<in> set transactions_df. txn_customer_id t \<in> customer_id ` set customers_df
                                 \<and> txn_product_id t \<in> product_id ` set products_df}
   \<and> (distinct (map customer_id customers_df) \<and> distinct (map product_id products_df) \<longrightarrow>
        map txn (sales_data transactions_df customers_df products_df)
          = filter (\<lambda>t. txn_customer_id t \<in> customer_id ` set customers_df
                        \<and> txn_product_id t \<in> product_id ` set products_df) transactions_df)"
  using set_sales_data sales_data_unique by blast

theorem inner_join_drops_unmatched_witness:
  "distinct (map customer_id ex_customers) \<and> distinct (map product_id ex_products)
   \<and> map (transaction_id \<circ> txn) (sales_data ex_transactions ex_customers ex_products) = [1, 2, 3]
   \<and> map transaction_id ex_transactions = [1, 2, 3, 4, 5]"
proof -
  have h: "distinct (map customer_id ex_customers) \<and> distinct (map product_id ex_products)"
    by (simp add: ex_customers_def ex_products_def)
  have "map txn (sales_data ex_transactions ex_customers ex_products)
          = filter (\<lambda>t. txn_customer_id t \<in> customer_id ` set ex_customers
                        \<and> txn_product_id t \<in> product_id ` set ex_products) ex_transactions"
    using inner_join_drops_unmatched[of ex_transactions ex_customers ex_products] h by blast
  then have "map (transaction_id \<circ> txn) (sales_data ex_transactions ex_customers ex_products)
          = map transaction_id (filter (\<lambda>t. txn_customer_id t \<in> customer_id ` set ex_customers
                        \<and> txn_product_id t \<in> product_id ` set ex_products) ex_transactions)"
    by (simp flip: map_map)
  also have "\<dots> = [1, 2, 3]"
    by (simp add: ex_customers_def ex_products_def ex_transactions_def)
  finally show ?thesis using h by (simp add: ex_transactions_def)
qed

section \<open>Properties of the RFM table\<close>

lemma snapshot_date_None: "snapshot_date sales = None \<longleftrightarrow> sales = []"
  by (cases sales) (simp_all add: snapshot_date_def series_max_def)

lemma rfm_agg_ids: "map rfm_customer_id (rfm_agg sales) = sort (remdups (map (txn_customer_id \<circ> txn) sales))"
proof (cases "snapshot_date sales")
  case None
  then have "sales = []" by (simp add: snapshot_date_None)
  then show ?thesis by (simp add: rfm_agg_def snapshot_date_def series_max_def)
next
  case (Some a)
  then show ?thesis by (simp add: rfm_agg_def groupby_def comp_def)
qed

lemma rfm_agg_frequency: "sum_list (map frequency (rfm_agg sales)) = length sales"
proof (cases "snapshot_date sales")
  case None
  then have "sales = []" by (simp add: snapshot_date_None)
  then show ?thesis by (simp add: rfm_agg_def snapshot_date_def series_max_def)
next
  case (Some a)
  then have "map frequency (rfm_agg sales) = map (\<lambda>(k, g). length g) (groupby (txn_customer_id \<circ> txn) sales)"
    by (simp add: rfm_agg_def split_def)
  then show ?thesis using groupby_length[of "txn_customer_id \<circ> txn" sales] by simp
qed

lemma rfm_rows: "map rfm_row.truncate (rfm sales cs) = map fst (merge_on rfm_customer_id customer_id (rfm_agg sales) cs)"
  by (simp add: rfm_def split_def comp_def rfm_row.truncate_def)

lemma rfm_joined:
  assumes "distinct (map customer_id cs)"
  shows "map rfm_row.truncate (rfm (sales_data ts cs ps) cs) = rfm_agg (sales_data ts cs ps)"
proof -
  have "rfm_customer_id ` set (rfm_agg (sales_data ts cs ps)) \<subseteq> customer_id ` set cs"
  proof
    fix k assume "k \<in> rfm_customer_id ` set (rfm_agg (sales_data ts cs ps))"
    then have "k \<in> set (map rfm_customer_id (rfm_agg (sales_data ts cs ps)))" by simp
    then have "k \<in> (txn_customer_id \<circ> txn) ` set (sales_data ts cs ps)"
      unfolding rfm_agg_ids by simp
    then obtain s where "s \<in> set (sales_data ts cs ps)" "k = txn_customer_id (txn s)" by auto
    then show "k \<in> customer_id ` set cs"
      using sales_data_keys[of s ts cs ps] by (metis image_eqI)
  qed
  with assms show ?thesis
    unfolding rfm_rows by (simp add: merge_on_left_unique)
qed

lemma series_max_Max: "xs \<noteq> [] \<Longrightarrow> series_max xs = Some (Max (set xs))"
  by (cases xs) (simp_all add: series_max_def flip: Max.set_eq_fold)

lemma days_ge_1: "day \<le> d \<Longrightarrow> 1 \<le> days d"
  using pos_imp_zdiv_pos_iff[of day d] by (simp add: days_def day_def)

lemma rfm_agg_recency:
  assumes "r \<in> set (rfm_agg sales)"
  shows "snapshot_date sales = Some (Max (set (map (transaction_date \<circ> txn) sales)) + day)
    \<and> recency r = days (Max (set (map (transaction_date \<circ> txn) sales)) + day
        - Max (set (map (transaction_date \<circ> txn)
                 (filter (\<lambda>s. txn_customer_id (txn s) = rfm_customer_id r) sales))))
    \<and> filter (\<lambda>s. txn_customer_id (txn s) = rfm_customer_id r) sales \<noteq> []
    \<and> 1 \<le> recency r"
proof -
  from assms have ne: "sales \<noteq> []"
    by (auto simp: rfm_agg_def snapshot_date_def series_max_def)
  let ?all = "Max (set (map (transaction_date \<circ> txn) sales))"
  have snap: "snapshot_date sales = Some (?all + day)"
    using ne by (simp add: snapshot_date_def series_max_Max)
  from assms snap obtain k g where kg: "(k, g) \<in> set (groupby (txn_customer_id \<circ> txn) sales)"
    and r: "r = \<lparr>rfm_customer_id = k,
                  recency = days (?all + day - Max (set (map (transaction_date \<circ> txn) g))),
                  frequency = length g,
                  monetary = sum_list (map (total_amount \<circ> txn) g)\<rparr>"
    by (auto simp: rfm_agg_def)
  have gne: "g \<noteq> []"
    using groupby_nonempty[OF kg] by blast
  have g: "g = filter (\<lambda>s. txn_customer_id (txn s) = k) sales"
    using groupby_nonempty[OF kg] by (simp add: comp_def)
  have "set (map (transaction_date \<circ> txn) g) \<subseteq> set (map (transaction_date \<circ> txn) sales)"
    using g by auto
  moreover have "set (map (transaction_date \<circ> txn) g) \<noteq> {}"
    using gne by simp
  ultimately have "Max (set (map (transaction_date \<circ> txn) g)) \<le> ?all"
    by (intro Max_mono) simp_all
  then have "1 \<le> days (?all + day - Max (set (map (transaction_date \<circ> txn) g)))"
    by (intro days_ge_1) simp
  with snap r g gne show ?thesis by simp
qed

text \<open>
  Claim C1. When the customer identifiers of \<^verbatim>\<open>customers_df\<close> are unique, the RFM table
  built from the joined sales has exactly one row per customer identifier of the joined
  sales: no identifier occurs twice in it, and its identifiers are exactly those of the
  sales rows.
\<close>

theorem rfm_one_row_per_customer:
  assumes "distinct (map customer_id customers_df)"
  shows "distinct (map rfm_customer_id (rfm (sales_data transactions_df customers_df products_df) customers_df))
    \<and> set (map rfm_customer_id (rfm (sales_data transactions_df customers_df products_df) customers_df))
        = set (map (txn_customer_id \<circ> txn) (sales_data transactions_df customers_df products_df))"
proof -
  let ?sales = "sales_data transactions_df customers_df products_df"
  have "map rfm_customer_id (rfm ?sales customers_df)
      = map rfm_customer_id (map rfm_row.truncate (rfm ?sales customers_df))"
    by (simp add: rfm_row.truncate_def)
  also have "\<dots> = sort (remdups (map (txn_customer_id \<circ> txn) ?sales))"
    using assms by (simp only: rfm_joined rfm_agg_ids)
  finally show ?thesis by simp
qed

theorem rfm_one_row_per_customer_witness:
  "distinct (map customer_id ex_customers)
   \<and> map rfm_customer_id (rfm (sales_data ex_transactions ex_customers ex_products) ex_customers) = [1, 2]
   \<and> set (map (txn_customer_id \<circ> txn) (sales_data ex_transactions ex_customers ex_products)) = {1, 2}"
proof -
  have h: "distinct (map customer_id ex_customers)"
    by (simp add: ex_customers_def)
  have e: "map rfm_customer_id (rfm (sales_data ex_transactions ex_customers ex_products) ex_customers) = [1, 2]"
    by code_simp
  from rfm_one_row_per_customer[OF h, of ex_transactions ex_products] h e show ?thesis
    by simp
qed

text \<open>
  Claim C2. For every row of the per-customer aggregation, the snapshot date is the
  maximum transaction date of all sales rows plus one day, the recency is the whole
  number of days from that customer's latest transaction (the customer has one) to the
  snapshot date, and the recency is not negative.
\<close>

theorem recency_global_snapshot:
  assumes "r \<in> set (rfm_agg sales)"
  shows "snapshot_date sales = Some (Max (set (map (transaction_date \<circ> txn) sales)) + day)
    \<and> recency r = days (Max (set (map (transaction_date \<circ> txn) sales)) + day
        - Max (set (map (transaction_date \<circ> txn)
                 (filter (\<lambda>s. txn_customer_id (txn s) = rfm_customer_id r) sales))))
    \<and> filter (\<lambda>s. txn_customer_id (txn s) = rfm_customer_id r) sales \<noteq> []
    \<and> 0 \<le> recency r"
  using rfm_agg_recency[OF assms] by simp

theorem recency_global_snapshot_witness:
  "\<lparr>rfm_customer_id = 2, recency = 2, frequency = 1, monetary = 3\<rparr>
      \<in> set (rfm_agg (sales_data ex_transactions ex_customers ex_products))
   \<and> snapshot_date (sales_data ex_transactions ex_customers ex_products) = Some (3 * day)
   \<and> filter (\<lambda>s. txn_customer_id (txn s) = 2) (sales_data ex_transactions ex_customers ex_products) \<noteq> []"
proof -
  let ?sales = "sales_data ex_transactions ex_customers ex_products"
  let ?r = "\<lparr>rfm_customer_id = 2, recency = 2, frequency = 1, monetary = 3\<rparr>"
  have e: "rfm_agg ?sales = [\<lparr>rfm_customer_id = 1, recency = 1, frequency = 2, monetary = 12\<rparr>, ?r]"
    by code_simp
  then have h: "?r \<in> set (rfm_agg ?sales)" by simp
  have m: "Max (set (map (transaction_date \<circ> txn) ?sales)) = 2 * day"
    by code_simp
  from recency_global_snapshot[OF h] m h show ?thesis by simp
qed

text \<open>
  Claim C5. The frequencies of the per-customer aggregation add up to the number of rows
  of the sales table it was computed from; with unique customer identifiers the same
  holds for the RFM table after the customer columns are joined on.
\<close>

theorem frequency_sums_to_row_count:
  "sum_list (map frequency (rfm_agg sales)) = length sales
   \<and> (distinct (map customer_id customers_df) \<longrightarrow>
        sum_list (map frequency (rfm (sales_data transactions_df customers_df products_df) customers_df))
          = length (sales_data transactions_df customers_df products_df))"
proof -
  have "sum_list (map frequency (rfm (sales_data transactions_df customers_df products_df) customers_df))
      = length (sales_data transactions_df customers_df products_df)"
    if "distinct (map customer_id customers_df)"
  proof -
    let ?sales = "sales_data transactions_df customers_df products_df"
    have "map frequency (rfm ?sales customers_df)
        = map frequency (map rfm_row.truncate (rfm ?sales customers_df))"
      by (simp add: rfm_row.truncate_def)
    also have "\<dots> = map frequency (rfm_agg ?sales)"
      using that by (simp only: rfm_joined)
    finally show ?thesis by (simp add: rfm_agg_frequency)
  qed
  then show ?thesis by (simp add: rfm_agg_frequency)
qed

theorem frequency_sums_to_row_count_witness:
  "distinct (map customer_id ex_customers)
   \<and> map frequency (rfm (sales_data ex_transactions ex_customers ex_products) ex_customers) = [2, 1]
   \<and> length (sales_data ex_transactions ex_customers ex_products) = 3"
proof -
  have h: "distinct (map customer_id ex_customers)"
    by (simp add: ex_customers_def)
  have e: "map frequency (rfm (sales_data ex_transactions ex_customers ex_products) ex_customers) = [2, 1]"
    by code_simp
  from frequency_sums_to_row_count[of "sales_data ex_transactions ex_customers ex_products"
      ex_customers ex_transactions ex_products] h e
  show ?thesis by simp
qed

section \<open>Rounding\<close>

lemma rint_of_int [simp]: "rint (of_int n) = n"
  by (simp add: rint_def)

lemma rint_error: "\<bar>of_int (rint x) - x\<bar> \<le> 1 / 2"
proof -
  have "of_int \<lfloor>x\<rfloor> \<le> x" "x < of_int \<lfloor>x\<rfloor> + 1" by linarith+
  then show ?thesis by (auto simp: rint_def Let_def)
qed

lemma round_to_error: "\<bar>round_to d x - x\<bar> \<le> 1 / (2 * 10 ^ d)"
proof -
  have "\<bar>round_to d x - x\<bar> = \<bar>of_int (rint (x * 10 ^ d)) - x * 10 ^ d\<bar> / 10 ^ d"
    by (simp add: round_to_def field_simps abs_divide flip: abs_mult) 
  also have "\<dots> \<le> (1 / 2) / 10 ^ d"
    by (intro divide_right_mono rint_error) simp
  finally show ?thesis by simp
qed



section \<open>Category performance\<close>










section \<open>Segments\<close>

lemma assign_cases:
  "assign_segment_name row \<in> {''Champions'', ''Loyal Customers'', ''Potential Loyalists'', ''At Risk'', ''Others''}"
  by (simp add: assign_segment_name_def)

lemma segment_profile_counts:
  "sum_list (map customer_count (segment_profile rows)) = length rows"
proof -
  have "map customer_count (segment_profile rows) = map (\<lambda>(k, g). length g) (groupby segment_name rows)"
    by (simp add: segment_profile_def split_def)
  then show ?thesis using groupby_length[of segment_name rows] by simp
qed

lemma segment_profile_length:
  "length (segment_profile (map add_segment_name scored)) \<le> 5"
proof -
  let ?names = "map segment_name (map add_segment_name scored)"
  have "set ?names \<subseteq> {''Champions'', ''Loyal Customers'', ''Potential Loyalists'', ''At Risk'', ''Others''}"
    using assign_cases by (auto simp: add_segment_name_def)
  then have "card (set ?names) \<le> card {''Champions'', ''Loyal Customers'', ''Potential Loyalists'', ''At Risk'', ''Others''}"
    by (intro card_mono) simp_all
  also have "\<dots> = 5" by simp
  finally show ?thesis
    by (simp add: segment_profile_def groupby_def length_remdups_card_conv)
qed

lemma segment_profile_percentage:
  assumes "rows \<noteq> []"
  shows "\<bar>sum_list (map percentage (segment_profile rows)) - 100\<bar>
           \<le> of_nat (length (segment_profile rows)) / 20"
proof -
  let ?G = "groupby segment_name rows"
  let ?n = "of_nat (length rows) :: rat"
  let ?exact = "\<lambda>(k, g). of_nat (length g) / ?n * 100"
  let ?rounded = "\<lambda>kg. round_to 1 (?exact kg)"
  have n: "?n \<noteq> 0" using assms by simp
  have 1: "map percentage (segment_profile rows) = map ?rounded ?G"
    by (simp add: segment_profile_def split_def)
  have "sum_list (map ?exact ?G) = (\<Sum>(k, g)\<leftarrow>?G. sum_list (map (\<lambda>_. 1 :: rat) g)) / ?n * 100"
    using sum_list_scaled[of "\<lambda>(k, g). of_nat (length g)" ?n 100 ?G]
    by (simp add: split_def sum_list_triv)
  also have "\<dots> = ?n / ?n * 100"
    by (simp only: groupby_sum) (simp add: sum_list_triv)
  finally have 2: "sum_list (map ?exact ?G) = 100"
    using n by simp
  have "\<bar>sum_list (map ?rounded ?G) - sum_list (map ?exact ?G)\<bar> \<le> of_nat (length ?G) * (1 / 20)"
    by (rule sum_list_abs_diff) (use round_to_error[of 1] in simp)
  moreover have "length (segment_profile rows) = length ?G"
    by (simp add: segment_profile_def)
  ultimately show ?thesis using 1 2 by simp
qed

text \<open>
  Claim C4. The segment name depends on the three scores only, which are compared as
  numbers, and the rules are tried in order: \<open>(5, 5, 5)\<close> is a champion, \<open>(1, 1, 1)\<close> is
  at risk, \<open>(3, 3, 1)\<close> is a loyal customer; each label is returned exactly when its rule
  holds and no earlier rule does, and \<open>Others\<close> exactly when no rule holds.
\<close>

theorem assign_segment_name_cascade:
  assumes "r_score row = Some r" and "f_score row = Some f" and "m_score row = Some m"
  shows "((r, f, m) = (5, 5, 5) \<longrightarrow> assign_segment_name row = ''Champions'')
    \<and> ((r, f, m) = (1, 1, 1) \<longrightarrow> assign_segment_name row = ''At Risk'')
    \<and> ((r, f, m) = (3, 3, 1) \<longrightarrow> assign_segment_name row = ''Loyal Customers'')
    \<and> (assign_segment_name row = ''Champions'') = (4 \<le> r \<and> 4 \<le> f \<and> 4 \<le> m)
    \<and> (assign_segment_name row = ''Loyal Customers'')
        = (\<not> (4 \<le> r \<and> 4 \<le> f \<and> 4 \<le> m) \<and> 3 \<le> r \<and> 3 \<le> f)
    \<and> (assign_segment_name row = ''Potential Loyalists'')
        = (\<not> (4 \<le> r \<and> 4 \<le> f \<and> 4 \<le> m) \<and> \<not> (3 \<le> r \<and> 3 \<le> f) \<and> 4 \<le> r \<and> f \<le> 2)
    \<and> (assign_segment_name row = ''At Risk'')
        = (\<not> (4 \<le> r \<and> 4 \<le> f \<and> 4 \<le> m) \<and> \<not> (3 \<le> r \<and> 3 \<le> f) \<and> \<not> (4 \<le> r \<and> f \<le> 2) \<and> r \<le> 2)
    \<and> (assign_segment_name row = ''Others'')
        = (\<not> (4 \<le> r \<and> 4 \<le> f \<and> 4 \<le> m) \<and> \<not> (3 \<le> r \<and> 3 \<le> f) \<and> \<not> (4 \<le> r \<and> f \<le> 2) \<and> \<not> r \<le> 2)
    \<and> (r_score row' = r_score row \<and> f_score row' = f_score row \<and> m_score row' = m_score row
          \<longrightarrow> assign_segment_name row' = assign_segment_name row)"
  using assms by (auto simp: assign_segment_name_def score_ge_def score_le_def)

theorem assign_segment_name_cascade_witness:
  "assign_segment_name (ex_scored 5 5 5) = ''Champions''
   \<and> assign_segment_name (ex_scored 1 1 1) = ''At Risk''
   \<and> assign_segment_name (ex_scored 3 3 1) = ''Loyal Customers''
   \<and> assign_segment_name (ex_scored 5 2 1) = ''Potential Loyalists''
   \<and> assign_segment_name (ex_scored 3 2 5) = ''Others''"
proof -
  have s: "r_score (ex_scored r f m) = Some r" "f_score (ex_scored r f m) = Some f"
    "m_score (ex_scored r f m) = Some m" for r f m
    by (simp_all add: ex_scored_def add_scores_def)
  show ?thesis
    using assign_segment_name_cascade[OF s, of 5 5 5]
      assign_segment_name_cascade[OF s, of 1 1 1]
      assign_segment_name_cascade[OF s, of 3 3 1]
      assign_segment_name_cascade[OF s, of 5 2 1]
      assign_segment_name_cascade[OF s, of 3 2 5]
    by simp
qed

text \<open>
  Claim C10. \<^verbatim>\<open>assign_segment_name\<close> returns one of the five labels for every row; the
  customer counts of the segment profile add up to the number of rows profiled; a
  profile of labelled rows has at most five segments, and its percentages add up to 100
  within a quarter of a point.
\<close>

theorem segment_labels_partition:
  "assign_segment_name row
      \<in> {''Champions'', ''Loyal Customers'', ''Potential Loyalists'', ''At Risk'', ''Others''}
   \<and> sum_list (map customer_count (segment_profile rows)) = length rows
   \<and> length (segment_profile (map add_segment_name scored)) \<le> 5
   \<and> (scored \<noteq> [] \<longrightarrow>
        \<bar>sum_list (map percentage (segment_profile (map add_segment_name scored))) - 100\<bar> \<le> 1 / 4)"
proof -
  have "\<bar>sum_list (map percentage (segment_profile (map add_segment_name scored))) - 100\<bar> \<le> 1 / 4"
    if "scored \<noteq> []"
  proof -
    let ?p = "segment_profile (map add_segment_name scored)"
    have "\<bar>sum_list (map percentage ?p) - 100\<bar> \<le> of_nat (length ?p) / 20"
      using that by (intro segment_profile_percentage) simp
    also have "\<dots> \<le> of_nat 5 / 20"
      using segment_profile_length[of scored] by (intro divide_right_mono) simp_all
    finally show ?thesis by simp
  qed
  then show ?thesis
    using assign_cases segment_profile_counts segment_profile_length by blast
qed

theorem segment_labels_partition_witness:
  "[ex_scored 5 5 5, ex_scored 1 1 1, ex_scored 3 3 1] \<noteq> []
   \<and> map segment (segment_profile (map add_segment_name [ex_scored 5 5 5, ex_scored 1 1 1, ex_scored 3 3 1]))
       = [''At Risk'', ''Champions'', ''Loyal Customers'']
   \<and> map percentage (segment_profile (map add_segment_name [ex_scored 5 5 5, ex_scored 1 1 1, ex_scored 3 3 1]))
       = [333 / 10, 333 / 10, 333 / 10]
   \<and> \<bar>sum_list (map percentage (segment_profile (map add_segment_name [ex_scored 5 5 5, ex_scored 1 1 1, ex_scored 3 3 1]))) - 100\<bar> \<le> 1 / 4"
proof -
  let ?rows = "[ex_scored 5 5 5, ex_scored 1 1 1, ex_scored 3 3 1]"
  have 1: "map segment (segment_profile (map add_segment_name ?rows))
       = [''At Risk'', ''Champions'', ''Loyal Customers'']"
    by code_simp
  have 2: "map percentage (segment_profile (map add_segment_name ?rows))
       = [333 / 10, 333 / 10, 333 / 10]"
    by code_simp
  from segment_labels_partition[of _ _ ?rows] 1 2 show ?thesis
    by simp
qed

section \<open>Ranks\<close>



lemma length_rank_first [simp]: "length (rank_first xs) = length xs"
  by (simp add: rank_first_def)









section \<open>Quantile binning\<close>

lemma length_bin_edges [simp]: "length (bin_edges xs q) = q + 1"
  by (simp add: bin_edges_def)
























section \<open>Binning the ranks\<close>


















section \<open>The scoring step\<close>











end
